theory Spec2Isabelle
  imports Main "HOL-Library.Sublist"
begin

section \<open>The runner script \<^verbatim>\<open>script/run_vunit.py\<close>\<close>

text \<open>
  The whole program is the module body of \<^verbatim>\<open>run_vunit.py\<close>:
  \<^verbatim>\<open>
  from vunit import VUnit
  vu = VUnit.from_argv()
  lib = vu.add_library("lib");
  lib.add_source_files("../src/design/*.vhd")
  lib.add_source_files("../src/test/*.vhd")
  vu.main()
  \<close>
  Every statement is a call into the external VUnit package, which is not part of the
  repository. The package is therefore a parameter of the model: a record of four
  operations over a state \<open>'s\<close> (the process and everything the package keeps in it).
  The \<^verbatim>\<open>import\<close> binds that parameter; a process in which the package cannot be
  imported has no run in this model.
\<close>

subsection \<open>Outcomes of a Python call\<close>

text \<open>
  A call returns a value, raises an exception that nobody catches, or leaves the
  interpreter through \<^verbatim>\<open>sys.exit(code)\<close>. Python implements the last with the
  exception \<^verbatim>\<open>SystemExit\<close>; it is kept apart from the exceptions that report an
  error because it is how a run ends in the regular way (VUnit's \<^verbatim>\<open>main\<close> always
  ends with it) and because it carries the exit code of the process.
\<close>

datatype exn = Exn string

datatype 'a outcome = Returns 'a | Raises exn | Exits int

text \<open>
  The code the interpreter ends with: 0 when the module body runs to its end, 1 when an
  exception reaches the top level, the given code after \<^verbatim>\<open>sys.exit\<close>.
\<close>

fun exit_status :: "'a outcome \<Rightarrow> int" where
  "exit_status (Returns v) = 0"
| "exit_status (Raises e) = 1"
| "exit_status (Exits c) = c"

text \<open>
  Two statements in sequence: the second runs only when the first returns; an exception
  or an exit of the first is the outcome of both, in the state the first left.
\<close>

definition py_bind ::
  "('s \<Rightarrow> 'a outcome \<times> 's) \<Rightarrow> ('a \<Rightarrow> 's \<Rightarrow> 'b outcome \<times> 's) \<Rightarrow> 's \<Rightarrow> 'b outcome \<times> 's" where
  "py_bind m f s =
     (case m s of
        (Returns a, s') \<Rightarrow> f a s'
      | (Raises e, s') \<Rightarrow> (Raises e, s')
      | (Exits c, s') \<Rightarrow> (Exits c, s'))"

subsection \<open>The external package\<close>

text \<open>
  \<open>from_argv\<close> is \<^verbatim>\<open>VUnit.from_argv()\<close>, called without arguments: the package reads
  the command line from the process state by itself. \<open>add_library\<close> and \<open>main\<close> are
  methods of the object it returns, \<open>add_source_files\<close> a method of the library object.
  The script drops what \<open>add_source_files\<close> and \<open>main\<close> return, so they return \<open>unit\<close> here.
\<close>

record ('s, 'vu, 'lib) framework =
  from_argv :: "'s \<Rightarrow> 'vu outcome \<times> 's"
  add_library :: "'vu \<Rightarrow> string \<Rightarrow> 's \<Rightarrow> 'lib outcome \<times> 's"
  add_source_files :: "'lib \<Rightarrow> string \<Rightarrow> 's \<Rightarrow> unit outcome \<times> 's"
  main :: "'vu \<Rightarrow> 's \<Rightarrow> unit outcome \<times> 's"

subsection \<open>The script\<close>

definition run_vunit :: "('s, 'vu, 'lib) framework \<Rightarrow> 's \<Rightarrow> unit outcome \<times> 's" where
  "run_vunit fw =
     py_bind (from_argv fw) (\<lambda>vu.
     py_bind (add_library fw vu ''lib'') (\<lambda>lib.
     py_bind (add_source_files fw lib ''../src/design/*.vhd'') (\<lambda>_.
     py_bind (add_source_files fw lib ''../src/test/*.vhd'') (\<lambda>_.
     main fw vu))))"

subsection \<open>Observing the calls of a run\<close>

text \<open>
  To speak about the calls the script issues, the package is wrapped so that every call
  is written to a log before its outcome is handed back: which operation with which
  arguments, the state it was called in, what it gave, and the state it left.
\<close>

datatype ('vu, 'lib) call =
  FromArgv
| AddLibrary 'vu string
| AddSourceFiles 'lib string
| Main 'vu

datatype ('vu, 'lib) retval = VUnitObj 'vu | Library 'lib | NoValue

record ('s, 'vu, 'lib) event =
  ev_call :: "('vu, 'lib) call"
  ev_before :: 's
  ev_result :: "('vu, 'lib) retval outcome"
  ev_after :: 's

definition observe ::
  "('vu, 'lib) call \<Rightarrow> ('a \<Rightarrow> ('vu, 'lib) retval) \<Rightarrow> ('s \<Rightarrow> 'a outcome \<times> 's) \<Rightarrow>
   ('s, 'vu, 'lib) event list \<times> 's \<Rightarrow> 'a outcome \<times> (('s, 'vu, 'lib) event list \<times> 's)" where
  "observe c tag m =
     (\<lambda>(log, s). case m s of
        (r, s') \<Rightarrow>
          (r, (log @ [\<lparr>ev_call = c, ev_before = s, ev_result = map_outcome tag r,
                        ev_after = s'\<rparr>], s')))"

definition logged ::
  "('s, 'vu, 'lib) framework \<Rightarrow> (('s, 'vu, 'lib) event list \<times> 's, 'vu, 'lib) framework" where
  "logged fw =
     \<lparr>from_argv = observe FromArgv VUnitObj (from_argv fw),
      add_library = (\<lambda>vu name. observe (AddLibrary vu name) Library (add_library fw vu name)),
      add_source_files =
        (\<lambda>lib pat. observe (AddSourceFiles lib pat) (\<lambda>_. NoValue) (add_source_files fw lib pat)),
      main = (\<lambda>vu. observe (Main vu) (\<lambda>_. NoValue) (main fw vu))\<rparr>"

definition trace :: "('s, 'vu, 'lib) framework \<Rightarrow> 's \<Rightarrow> ('s, 'vu, 'lib) event list" where
  "trace fw s = fst (snd (run_vunit (logged fw) ([], s)))"

definition returned :: "('s, 'vu, 'lib) event \<Rightarrow> bool" where
  "returned e = (case ev_result e of Returns v \<Rightarrow> True | Raises x \<Rightarrow> False | Exits c \<Rightarrow> False)"

fun is_add_library :: "('vu, 'lib) call \<Rightarrow> bool" where
  "is_add_library (AddLibrary vu name) = True"
| "is_add_library c = False"

subsection \<open>Relative patterns and the file system\<close>

text \<open>
  The script hands two pattern strings to \<^verbatim>\<open>add_source_files\<close>; what they select is
  decided by Python's \<^verbatim>\<open>glob.glob\<close>, which VUnit calls on each pattern. The
  functions below follow \<^verbatim>\<open>glob\<close>, \<^verbatim>\<open>fnmatch\<close> and \<^verbatim>\<open>os.path\<close> on POSIX for
  a pathname whose directory part has no wildcard and whose last component uses the
  wildcards \<^verbatim>\<open>*\<close> and \<^verbatim>\<open>?\<close>, the form of both patterns of the script (character
  classes, wildcards in directories and symbolic links are left out).

  An absolute directory is the list of its components from the root; the file system
  gives the names of the entries of each directory, as \<^verbatim>\<open>os.listdir\<close> does.
\<close>

type_synonym path = "string list"

type_synonym filesystem = "(path \<times> string list) list"

text \<open>\<^verbatim>\<open>glob._listdir\<close>: the entries of a directory, nothing when it cannot be read.\<close>

definition listdir :: "filesystem \<Rightarrow> path \<Rightarrow> string list" where
  "listdir t d = (case map_of t d of None \<Rightarrow> [] | Some names \<Rightarrow> names)"

text \<open>\<^verbatim>\<open>str.split('/')\<close>.\<close>

fun split_slash :: "string \<Rightarrow> string list" where
  "split_slash [] = [[]]"
| "split_slash (c # cs) =
     (if c = CHR ''/'' then [] # split_slash cs
      else (case split_slash cs of [] \<Rightarrow> [[c]] | w # ws \<Rightarrow> (c # w) # ws))"

text \<open>
  \<^verbatim>\<open>os.path.split\<close>: the part up to the last slash, without its trailing slashes
  unless it consists of slashes only, and the part after the last slash.
\<close>

definition path_split :: "string \<Rightarrow> string \<times> string" where
  "path_split p =
     (let tail = rev (takeWhile (\<lambda>c. c \<noteq> CHR ''/'') (rev p));
          head = take (length p - length tail) p
      in (if \<forall>c \<in> set head. c = CHR ''/'' then head
          else rev (dropWhile (\<lambda>c. c = CHR ''/'') (rev head)), tail))"

text \<open>\<^verbatim>\<open>os.path.join\<close> of a directory and a name that is not absolute.\<close>

definition path_join :: "string \<Rightarrow> string \<Rightarrow> string" where
  "path_join d n = (if d = [] \<or> last d = CHR ''/'' then d @ n else d @ ''/'' @ n)"

text \<open>
  How the operating system follows a pathname from a directory: \<^verbatim>\<open>..\<close> goes to the
  parent (the root is its own parent), \<^verbatim>\<open>.\<close> and empty components stay.
\<close>

fun resolve :: "path \<Rightarrow> string list \<Rightarrow> path" where
  "resolve d [] = d"
| "resolve d (c # cs) =
     (if c = ''..'' then resolve (butlast d) cs
      else if c = ''.'' \<or> c = [] then resolve d cs
      else resolve (d @ [c]) cs)"

text \<open>A pathname that starts with a slash is followed from the root, any other from \<open>wd\<close>.\<close>

definition locate :: "path \<Rightarrow> string \<Rightarrow> path" where
  "locate wd p = resolve (if p \<noteq> [] \<and> hd p = CHR ''/'' then [] else wd) (split_slash p)"

text \<open>\<^verbatim>\<open>fnmatch\<close> for a pattern of literal characters, \<^verbatim>\<open>*\<close> and \<^verbatim>\<open>?\<close>.\<close>

fun fnmatch :: "string \<Rightarrow> string \<Rightarrow> bool" where
  "fnmatch [] [] = True"
| "fnmatch [] (c # cs) = False"
| "fnmatch (p # ps) [] = (p = CHR ''*'' \<and> fnmatch ps [])"
| "fnmatch (p # ps) (c # cs) =
     (if p = CHR ''*'' then fnmatch ps (c # cs) \<or> fnmatch (p # ps) cs
      else (p = CHR ''?'' \<or> p = c) \<and> fnmatch ps cs)"

definition ishidden :: "string \<Rightarrow> bool" where
  "ishidden n = (n \<noteq> [] \<and> hd n = CHR ''.'')"

text \<open>
  \<^verbatim>\<open>glob._glob1\<close>: the entries of one directory that match the pattern; entries that
  start with a dot are skipped unless the pattern starts with a dot.
\<close>

definition glob1 :: "filesystem \<Rightarrow> path \<Rightarrow> string \<Rightarrow> string list" where
  "glob1 t d pat =
     filter (fnmatch pat)
       (if ishidden pat then listdir t d else filter (\<lambda>n. \<not> ishidden n) (listdir t d))"

text \<open>
  \<^verbatim>\<open>glob.glob(pathname)\<close> in a process whose working directory is \<open>wd\<close>: the
  pathname is split, its directory part is followed from \<open>wd\<close>, and every match is
  given back joined to the directory part as it was written.
\<close>

definition glob :: "filesystem \<Rightarrow> path \<Rightarrow> string \<Rightarrow> string list" where
  "glob t wd pathname =
     (case path_split pathname of
        (dirname, basename) \<Rightarrow> map (path_join dirname) (glob1 t (locate wd dirname) basename))"

subsection \<open>A stand-in for the package\<close>

text \<open>
  To run the script on concrete inputs, the package is replaced by a small stand-in that
  keeps what matters here of VUnit's behaviour: \<^verbatim>\<open>from_argv\<close> leaves with code 0 on a
  help flag and otherwise starts a project without libraries; \<^verbatim>\<open>add_library\<close> refuses
  a name that exists; \<^verbatim>\<open>add_source_files\<close> needs a library that exists,
  resolves the pattern with \<open>glob\<close> from the working directory of the process and raises
  when nothing matches (VUnit's default, \<^verbatim>\<open>allow_empty=False\<close>); \<^verbatim>\<open>main\<close> leaves with
  0 when the simulation passes and 1 otherwise. The verdict of the simulation is a field
  of the process, as is the directory the script file lies in, which nothing reads.
\<close>

record process =
  sys_argv :: "string list"
  cwd :: path
  script_dir :: path
  tree :: filesystem
  passing :: bool
  libraries :: "(string \<times> string list) list"

definition stub_from_argv :: "process \<Rightarrow> unit outcome \<times> process" where
  "stub_from_argv p =
     (if ''-h'' \<in> set (sys_argv p) \<or> ''--help'' \<in> set (sys_argv p) then (Exits 0, p)
      else (Returns (), p\<lparr>libraries := []\<rparr>))"

definition stub_add_library :: "unit \<Rightarrow> string \<Rightarrow> process \<Rightarrow> string outcome \<times> process" where
  "stub_add_library vu name p =
     (case map_of (libraries p) name of
        Some fs \<Rightarrow> (Raises (Exn ''ValueError''), p)
      | None \<Rightarrow> (Returns name, p\<lparr>libraries := libraries p @ [(name, [])]\<rparr>))"

definition stub_add_source_files :: "string \<Rightarrow> string \<Rightarrow> process \<Rightarrow> unit outcome \<times> process" where
  "stub_add_source_files lib pat p =
     (case map_of (libraries p) lib of
        None \<Rightarrow> (Raises (Exn ''KeyError''), p)
      | Some old \<Rightarrow>
          (case glob (tree p) (cwd p) pat of
             [] \<Rightarrow> (Raises (Exn ''ValueError''), p)
           | f # fs \<Rightarrow>
               (Returns (),
                p\<lparr>libraries :=
                    map (\<lambda>(n, xs). if n = lib then (n, xs @ f # fs) else (n, xs)) (libraries p)\<rparr>)))"

definition stub_main :: "unit \<Rightarrow> process \<Rightarrow> unit outcome \<times> process" where
  "stub_main vu p = (Exits (if passing p then 0 else 1), p)"

definition vunit_stub :: "(process, unit, string) framework" where
  "vunit_stub =
     \<lparr>from_argv = stub_from_argv,
      add_library = stub_add_library,
      add_source_files = stub_add_source_files,
      main = stub_main\<rparr>"

text \<open>
  A checkout under \<^verbatim>\<open>/repo\<close> with one design file and one test bench, and a second
  tree under \<^verbatim>\<open>/home\<close> that has directories of the same names.
\<close>

definition demo_tree :: filesystem where
  "demo_tree =
     [([''repo''], [''script'', ''src'']),
      ([''repo'', ''script''], [''run_vunit.py'']),
      ([''repo'', ''src''], [''design'', ''test'']),
      ([''repo'', ''src'', ''design''], [''phy.vhd'', ''notes.txt'', ''.old.vhd'', ''sub'']),
      ([''repo'', ''src'', ''design'', ''sub''], [''deep.vhd'']),
      ([''repo'', ''src'', ''test''], [''phy_tb.vhd'']),
      ([''home''], [''user'', ''src'']),
      ([''home'', ''user''], []),
      ([''home'', ''src''], [''design'', ''test'']),
      ([''home'', ''src'', ''design''], [''other.vhd'']),
      ([''home'', ''src'', ''test''], [''other_tb.vhd''])]"

text \<open>The script started from its own directory, with no arguments.\<close>

definition demo :: process where
  "demo =
     \<lparr>sys_argv = [], cwd = [''repo'', ''script''], script_dir = [''repo'', ''script''],
      tree = demo_tree, passing = True, libraries = []\<rparr>"

text \<open>The same checkout, started from somewhere else, from the top of the checkout,
  and with the help flag.\<close>

definition away :: process where
  "away = demo\<lparr>cwd := [''home'', ''user'']\<rparr>"

definition above :: process where
  "above = demo\<lparr>cwd := [''repo'']\<rparr>"

definition asks_help :: process where
  "asks_help = demo\<lparr>sys_argv := [''--help'']\<rparr>"

subsection \<open>What registration is taken to mean\<close>

text \<open>
  The claims about the files a library holds depend on what the package does with a
  pattern. \<open>vunit_like\<close> states what they take for granted: a view of the state gives
  the files registered in a library, the file system and the working directory;
  \<^verbatim>\<open>add_library\<close> gives an empty library; \<^verbatim>\<open>add_source_files\<close> adds to the
  library what \<open>glob\<close> finds for the pattern from the working directory; neither changes
  the file system or the working directory.
\<close>

record ('s, 'lib) view =
  registered :: "'s \<Rightarrow> 'lib \<Rightarrow> string set"
  view_tree :: "'s \<Rightarrow> filesystem"
  view_cwd :: "'s \<Rightarrow> path"

definition vunit_like :: "('s, 'vu, 'lib) framework \<Rightarrow> ('s, 'lib) view \<Rightarrow> bool" where
  "vunit_like fw v \<longleftrightarrow>
     (\<forall>vu name s lib s'. add_library fw vu name s = (Returns lib, s') \<longrightarrow>
        registered v s' lib = {}
        \<and> view_tree v s' = view_tree v s \<and> view_cwd v s' = view_cwd v s)
   \<and> (\<forall>lib pat s s'. add_source_files fw lib pat s = (Returns (), s') \<longrightarrow>
        registered v s' lib = registered v s lib \<union> set (glob (view_tree v s) (view_cwd v s) pat)
        \<and> view_tree v s' = view_tree v s \<and> view_cwd v s' = view_cwd v s)"

definition stub_view :: "(process, string) view" where
  "stub_view =
     \<lparr>registered = (\<lambda>p lib. case map_of (libraries p) lib of None \<Rightarrow> {} | Some fs \<Rightarrow> set fs),
      view_tree = tree,
      view_cwd = cwd\<rparr>"

section \<open>Auxiliary facts\<close>

subsection \<open>Outcomes\<close>

lemma map_outcome_eq_iff [simp]:
  "(map_outcome f r = Raises x) = (r = Raises x)"
  "(map_outcome f r = Exits c) = (r = Exits c)"
  "(map_outcome f r = Returns w) = (\<exists>v. r = Returns v \<and> w = f v)"
  by (cases r; auto)+

lemma map_outcome_unit [simp]: "map_outcome (\<lambda>_. ()) (r :: unit outcome) = r"
  by (cases r) simp_all

lemma map_outcome_erase [simp]:
  "map_outcome (\<lambda>_. ()) (map_outcome f r) = map_outcome (\<lambda>_. ()) r"
  by (cases r) simp_all

lemma exit_status_map [simp]: "exit_status (map_outcome f r) = exit_status r"
  by (cases r) simp_all

lemma returned_event [simp]:
  "returned \<lparr>ev_call = c, ev_before = s, ev_result = r, ev_after = s'\<rparr> = (\<exists>v. r = Returns v)"
  by (cases r) (simp_all add: returned_def)

subsection \<open>The runs of the script\<close>

lemmas run_defs = trace_def run_vunit_def logged_def observe_def py_bind_def

text \<open>Logging changes neither the outcome nor the final state of a run.\<close>

lemma run_vunit_logged:
  "run_vunit (logged fw) (log, s) =
     (fst (run_vunit fw s), (log @ trace fw s, snd (run_vunit fw s)))"
  by (simp add: run_defs split: prod.splits outcome.splits)

text \<open>
  A run ends at the first call that does not return, or with \<open>main\<close>. Each case gives
  the calls of the package, the log and the result of the script.
\<close>

lemma run_vunit_cases:
  obtains
    (argv) r s1 where
      "from_argv fw s = (r, s1)" "\<And>v. r \<noteq> Returns v"
      "trace fw s = [\<lparr>ev_call = FromArgv, ev_before = s, ev_result = map_outcome VUnitObj r, ev_after = s1\<rparr>]"
      "run_vunit fw s = (map_outcome (\<lambda>_. ()) r, s1)"
  | (library) vu s1 r s2 where
      "from_argv fw s = (Returns vu, s1)"
      "add_library fw vu ''lib'' s1 = (r, s2)" "\<And>v. r \<noteq> Returns v"
      "trace fw s =
         [\<lparr>ev_call = FromArgv, ev_before = s, ev_result = Returns (VUnitObj vu), ev_after = s1\<rparr>,
          \<lparr>ev_call = AddLibrary vu ''lib'', ev_before = s1, ev_result = map_outcome Library r, ev_after = s2\<rparr>]"
      "run_vunit fw s = (map_outcome (\<lambda>_. ()) r, s2)"
  | (design) vu s1 lib s2 r s3 where
      "from_argv fw s = (Returns vu, s1)"
      "add_library fw vu ''lib'' s1 = (Returns lib, s2)"
      "add_source_files fw lib ''../src/design/*.vhd'' s2 = (r, s3)" "r \<noteq> Returns ()"
      "trace fw s =
         [\<lparr>ev_call = FromArgv, ev_before = s, ev_result = Returns (VUnitObj vu), ev_after = s1\<rparr>,
          \<lparr>ev_call = AddLibrary vu ''lib'', ev_before = s1, ev_result = Returns (Library lib), ev_after = s2\<rparr>,
          \<lparr>ev_call = AddSourceFiles lib ''../src/design/*.vhd'', ev_before = s2,
             ev_result = map_outcome (\<lambda>_. NoValue) r, ev_after = s3\<rparr>]"
      "run_vunit fw s = (r, s3)"
  | (test) vu s1 lib s2 s3 r s4 where
      "from_argv fw s = (Returns vu, s1)"
      "add_library fw vu ''lib'' s1 = (Returns lib, s2)"
      "add_source_files fw lib ''../src/design/*.vhd'' s2 = (Returns (), s3)"
      "add_source_files fw lib ''../src/test/*.vhd'' s3 = (r, s4)" "r \<noteq> Returns ()"
      "trace fw s =
         [\<lparr>ev_call = FromArgv, ev_before = s, ev_result = Returns (VUnitObj vu), ev_after = s1\<rparr>,
          \<lparr>ev_call = AddLibrary vu ''lib'', ev_before = s1, ev_result = Returns (Library lib), ev_after = s2\<rparr>,
          \<lparr>ev_call = AddSourceFiles lib ''../src/design/*.vhd'', ev_before = s2,
             ev_result = Returns NoValue, ev_after = s3\<rparr>,
          \<lparr>ev_call = AddSourceFiles lib ''../src/test/*.vhd'', ev_before = s3,
             ev_result = map_outcome (\<lambda>_. NoValue) r, ev_after = s4\<rparr>]"
      "run_vunit fw s = (r, s4)"
  | (main) vu s1 lib s2 s3 s4 r s5 where
      "from_argv fw s = (Returns vu, s1)"
      "add_library fw vu ''lib'' s1 = (Returns lib, s2)"
      "add_source_files fw lib ''../src/design/*.vhd'' s2 = (Returns (), s3)"
      "add_source_files fw lib ''../src/test/*.vhd'' s3 = (Returns (), s4)"
      "main fw vu s4 = (r, s5)"
      "trace fw s =
         [\<lparr>ev_call = FromArgv, ev_before = s, ev_result = Returns (VUnitObj vu), ev_after = s1\<rparr>,
          \<lparr>ev_call = AddLibrary vu ''lib'', ev_before = s1, ev_result = Returns (Library lib), ev_after = s2\<rparr>,
          \<lparr>ev_call = AddSourceFiles lib ''../src/design/*.vhd'', ev_before = s2,
             ev_result = Returns NoValue, ev_after = s3\<rparr>,
          \<lparr>ev_call = AddSourceFiles lib ''../src/test/*.vhd'', ev_before = s3,
             ev_result = Returns NoValue, ev_after = s4\<rparr>,
          \<lparr>ev_call = Main vu, ev_before = s4, ev_result = map_outcome (\<lambda>_. NoValue) r, ev_after = s5\<rparr>]"
      "run_vunit fw s = (r, s5)"
proof (cases "from_argv fw s")
  case a: (Pair r0 s1)
  show thesis
  proof (cases r0)
    case (Returns vu)
    note a = a[unfolded Returns]
    show thesis
    proof (cases "add_library fw vu ''lib'' s1")
      case b: (Pair r1 s2)
      show thesis
      proof (cases r1)
        case (Returns lib)
        note b = b[unfolded Returns]
        show thesis
        proof (cases "add_source_files fw lib ''../src/design/*.vhd'' s2")
          case c: (Pair r2 s3)
          show thesis
          proof (cases "r2 = Returns ()")
            case True
            note c = c[unfolded True]
            show thesis
            proof (cases "add_source_files fw lib ''../src/test/*.vhd'' s3")
              case d: (Pair r3 s4)
              show thesis
              proof (cases "r3 = Returns ()")
                case True
                note d = d[unfolded True]
                show thesis
                proof (cases "main fw vu s4")
                  case e: (Pair r4 s5)
                  show thesis
                    by (rule main[OF a b c d e]) (simp_all add: run_defs a b c d e)
                qed
              next
                case False
                show thesis
                  by (rule test[OF a b c d False]) (use False in \<open>cases r3; simp add: run_defs a b c d\<close>)+
              qed
            qed
          next
            case False
            show thesis
              by (rule design[OF a b c False]) (use False in \<open>cases r2; simp add: run_defs a b c\<close>)+
          qed
        qed
      qed (rule library[OF a b]; simp add: run_defs a b)+
    qed
  qed (rule argv[OF a]; simp add: run_defs a)+
qed

subsection \<open>The two patterns\<close>

lemma path_split_design: "path_split ''../src/design/*.vhd'' = (''../src/design'', ''*.vhd'')"
  by (simp add: path_split_def)

lemma path_split_test: "path_split ''../src/test/*.vhd'' = (''../src/test'', ''*.vhd'')"
  by (simp add: path_split_def)

lemma locate_design: "locate wd ''../src/design'' = butlast wd @ [''src'', ''design'']"
  by (simp add: locate_def)

lemma locate_test: "locate wd ''../src/test'' = butlast wd @ [''src'', ''test'']"
  by (simp add: locate_def)

lemma fnmatch_literal:
  "CHR ''*'' \<notin> set ps \<Longrightarrow> CHR ''?'' \<notin> set ps \<Longrightarrow> fnmatch ps n = (n = ps)"
  by (induction ps n rule: fnmatch.induct) auto

lemma fnmatch_star: "fnmatch (CHR ''*'' # ps) n = (\<exists>r. suffix r n \<and> fnmatch ps r)"
proof (induction n)
  case Nil
  show ?case by simp
next
  case (Cons c cs)
  then show ?case by (auto simp: suffix_Cons)
qed

lemma fnmatch_vhd: "fnmatch ''*.vhd'' n = suffix ''.vhd'' n"
  by (simp add: fnmatch_star fnmatch_literal)

lemma glob_design:
  "glob t wd ''../src/design/*.vhd'' =
     map (\<lambda>n. ''../src/design/'' @ n)
       (filter (\<lambda>n. suffix ''.vhd'' n \<and> \<not> ishidden n)
          (listdir t (butlast wd @ [''src'', ''design''])))"
  by (simp add: glob_def path_split_design locate_design glob1_def ishidden_def path_join_def
      fnmatch_vhd conj_commute cong: filter_cong)

lemma glob_test:
  "glob t wd ''../src/test/*.vhd'' =
     map (\<lambda>n. ''../src/test/'' @ n)
       (filter (\<lambda>n. suffix ''.vhd'' n \<and> \<not> ishidden n)
          (listdir t (butlast wd @ [''src'', ''test''])))"
  by (simp add: glob_def path_split_test locate_test glob1_def ishidden_def path_join_def
      fnmatch_vhd conj_commute cong: filter_cong)

subsection \<open>The stand-in\<close>

lemmas stub_defs = vunit_stub_def stub_from_argv_def stub_add_library_def
  stub_add_source_files_def stub_main_def

lemma map_of_extend:
  "map_of (map (\<lambda>(n, xs). if n = k then (n, f xs) else (n, xs)) l) k = map_option f (map_of l k)"
  by (induction l) auto

lemma stub_vunit_like: "vunit_like vunit_stub stub_view"
  by (auto simp: vunit_like_def vunit_stub_def stub_view_def stub_add_library_def
      stub_add_source_files_def map_of_extend split: option.splits list.splits)

lemma demo_fields [simp]:
  "sys_argv demo = []" "cwd demo = [''repo'', ''script'']"
  "script_dir demo = [''repo'', ''script'']" "tree demo = demo_tree"
  "passing demo = True" "libraries demo = []"
  by (simp_all add: demo_def)

lemma away_fields [simp]:
  "sys_argv away = []" "cwd away = [''home'', ''user'']"
  "script_dir away = [''repo'', ''script'']" "tree away = demo_tree"
  "passing away = True" "libraries away = []"
  by (simp_all add: away_def)

lemma above_fields [simp]:
  "sys_argv above = []" "cwd above = [''repo'']"
  "script_dir above = [''repo'', ''script'']" "tree above = demo_tree"
  "passing above = True" "libraries above = []"
  by (simp_all add: above_def)

lemma asks_help_fields [simp]:
  "sys_argv asks_help = [''--help'']" "cwd asks_help = [''repo'', ''script'']"
  "script_dir asks_help = [''repo'', ''script'']" "tree asks_help = demo_tree"
  "passing asks_help = True" "libraries asks_help = []"
  by (simp_all add: asks_help_def)

lemma demo_globs:
  "glob demo_tree [''repo'', ''script''] ''../src/design/*.vhd'' = [''../src/design/phy.vhd'']"
  "glob demo_tree [''repo'', ''script''] ''../src/test/*.vhd'' = [''../src/test/phy_tb.vhd'']"
  "glob demo_tree [''home'', ''user''] ''../src/design/*.vhd'' = [''../src/design/other.vhd'']"
  "glob demo_tree [''home'', ''user''] ''../src/test/*.vhd'' = [''../src/test/other_tb.vhd'']"
  "glob demo_tree [''repo''] ''../src/design/*.vhd'' = []"
  by (simp_all add: glob_design glob_test listdir_def demo_tree_def ishidden_def suffix_def)

lemma trace_demo:
  "trace vunit_stub demo =
     [\<lparr>ev_call = FromArgv, ev_before = demo,
       ev_result = Returns (VUnitObj ()), ev_after = demo\<lparr>libraries := []\<rparr>\<rparr>,
      \<lparr>ev_call = AddLibrary () ''lib'', ev_before = demo\<lparr>libraries := []\<rparr>,
       ev_result = Returns (Library ''lib''), ev_after = demo\<lparr>libraries := [(''lib'', [])]\<rparr>\<rparr>,
      \<lparr>ev_call = AddSourceFiles ''lib'' ''../src/design/*.vhd'',
       ev_before = demo\<lparr>libraries := [(''lib'', [])]\<rparr>,
       ev_result = Returns NoValue,
       ev_after = demo\<lparr>libraries := [(''lib'', [''../src/design/phy.vhd''])]\<rparr>\<rparr>,
      \<lparr>ev_call = AddSourceFiles ''lib'' ''../src/test/*.vhd'',
       ev_before = demo\<lparr>libraries := [(''lib'', [''../src/design/phy.vhd''])]\<rparr>,
       ev_result = Returns NoValue,
       ev_after =
         demo\<lparr>libraries := [(''lib'', [''../src/design/phy.vhd'', ''../src/test/phy_tb.vhd''])]\<rparr>\<rparr>,
      \<lparr>ev_call = Main (),
       ev_before =
         demo\<lparr>libraries := [(''lib'', [''../src/design/phy.vhd'', ''../src/test/phy_tb.vhd''])]\<rparr>,
       ev_result = Exits 0,
       ev_after =
         demo\<lparr>libraries := [(''lib'', [''../src/design/phy.vhd'', ''../src/test/phy_tb.vhd''])]\<rparr>\<rparr>]"
  by (simp add: run_defs stub_defs demo_globs)

lemma run_demo:
  "run_vunit vunit_stub demo =
     (Exits 0,
      demo\<lparr>libraries := [(''lib'', [''../src/design/phy.vhd'', ''../src/test/phy_tb.vhd''])]\<rparr>)"
  by (simp add: run_defs stub_defs demo_globs)

lemma trace_away:
  "map (\<lambda>e. (ev_call e, ev_result e, libraries (ev_after e))) (trace vunit_stub away) =
     [(FromArgv, Returns (VUnitObj ()), []),
      (AddLibrary () ''lib'', Returns (Library ''lib''), [(''lib'', [])]),
      (AddSourceFiles ''lib'' ''../src/design/*.vhd'', Returns NoValue,
       [(''lib'', [''../src/design/other.vhd''])]),
      (AddSourceFiles ''lib'' ''../src/test/*.vhd'', Returns NoValue,
       [(''lib'', [''../src/design/other.vhd'', ''../src/test/other_tb.vhd''])]),
      (Main (), Exits 0,
       [(''lib'', [''../src/design/other.vhd'', ''../src/test/other_tb.vhd''])])]"
  by (simp add: run_defs stub_defs demo_globs)

lemma run_away:
  "fst (run_vunit vunit_stub away) = Exits 0"
  "libraries (snd (run_vunit vunit_stub away)) =
     [(''lib'', [''../src/design/other.vhd'', ''../src/test/other_tb.vhd''])]"
  by (simp_all add: run_defs stub_defs demo_globs)

lemma trace_above:
  "trace vunit_stub above =
     [\<lparr>ev_call = FromArgv, ev_before = above,
       ev_result = Returns (VUnitObj ()), ev_after = above\<lparr>libraries := []\<rparr>\<rparr>,
      \<lparr>ev_call = AddLibrary () ''lib'', ev_before = above\<lparr>libraries := []\<rparr>,
       ev_result = Returns (Library ''lib''), ev_after = above\<lparr>libraries := [(''lib'', [])]\<rparr>\<rparr>,
      \<lparr>ev_call = AddSourceFiles ''lib'' ''../src/design/*.vhd'',
       ev_before = above\<lparr>libraries := [(''lib'', [])]\<rparr>,
       ev_result = Raises (Exn ''ValueError''),
       ev_after = above\<lparr>libraries := [(''lib'', [])]\<rparr>\<rparr>]"
  by (simp add: run_defs stub_defs demo_globs)

lemma run_above:
  "run_vunit vunit_stub above = (Raises (Exn ''ValueError''), above\<lparr>libraries := [(''lib'', [])]\<rparr>)"
  by (simp add: run_defs stub_defs demo_globs)

lemma trace_asks_help:
  "trace vunit_stub asks_help =
     [\<lparr>ev_call = FromArgv, ev_before = asks_help, ev_result = Exits 0, ev_after = asks_help\<rparr>]"
  by (simp add: run_defs stub_defs)

lemma run_asks_help: "run_vunit vunit_stub asks_help = (Exits 0, asks_help)"
  by (simp add: run_defs stub_defs)

subsection \<open>Registration under \<open>vunit_like\<close>\<close>

lemma vunit_like_add_library:
  assumes "vunit_like fw v" and "add_library fw vu name s = (Returns lib, s')"
  shows "registered v s' lib = {}"
    and "view_tree v s' = view_tree v s" and "view_cwd v s' = view_cwd v s"
  using assms unfolding vunit_like_def by blast+

lemma vunit_like_add_source_files:
  assumes "vunit_like fw v" and "add_source_files fw lib pat s = (Returns (), s')"
  shows "registered v s' lib = registered v s lib \<union> set (glob (view_tree v s) (view_cwd v s) pat)"
    and "view_tree v s' = view_tree v s" and "view_cwd v s' = view_cwd v s"
  using assms unfolding vunit_like_def by blast+

lemma registered_after_design:
  assumes "vunit_like fw v"
    and "add_library fw vu ''lib'' s1 = (Returns lib, s2)"
    and "add_source_files fw lib ''../src/design/*.vhd'' s2 = (Returns (), s3)"
  shows "registered v s3 lib = set (glob (view_tree v s3) (view_cwd v s3) ''../src/design/*.vhd'')"
  using vunit_like_add_library[OF assms(1,2)] vunit_like_add_source_files[OF assms(1,3)]
  by simp

lemma registered_after_test:
  assumes "vunit_like fw v"
    and "add_library fw vu ''lib'' s1 = (Returns lib, s2)"
    and "add_source_files fw lib ''../src/design/*.vhd'' s2 = (Returns (), s3)"
    and "add_source_files fw lib ''../src/test/*.vhd'' s3 = (Returns (), s4)"
  shows "registered v s4 lib =
           set (glob (view_tree v s4) (view_cwd v s4) ''../src/design/*.vhd'')
           \<union> set (glob (view_tree v s4) (view_cwd v s4) ''../src/test/*.vhd'')"
  using registered_after_design[OF assms(1,2,3)]
    vunit_like_add_source_files[OF assms(1,3)] vunit_like_add_source_files[OF assms(1,4)]
  by simp

lemma glob_design_entry:
  assumes "f \<in> set (glob t wd ''../src/design/*.vhd'')"
  shows "\<exists>n. f = ''../src/design/'' @ n
           \<and> n \<in> set (listdir t (butlast wd @ [''src'', ''design''])) \<and> suffix ''.vhd'' n"
  using assms unfolding glob_design by auto

lemma glob_test_entry:
  assumes "f \<in> set (glob t wd ''../src/test/*.vhd'')"
  shows "\<exists>n. f = ''../src/test/'' @ n
           \<and> n \<in> set (listdir t (butlast wd @ [''src'', ''test''])) \<and> suffix ''.vhd'' n"
  using assms unfolding glob_test by auto

section \<open>The claims\<close>

text \<open>
  C1. In every run the script calls, in this order, \<^verbatim>\<open>from_argv\<close> (the test-runner
  context, made from the command line in the state the script was started in),
  \<^verbatim>\<open>add_library("lib")\<close>, \<^verbatim>\<open>add_source_files\<close> with the design pattern and with the
  test pattern on that library, and \<^verbatim>\<open>main\<close>. The run stops early only behind a call
  that did not return, and it does nothing else: each call starts in the state the call
  before it left, and the result and final state of the script are those of the last call.
\<close>

theorem run_vunit_steps:
  "\<exists>vu lib.
     prefix (map ev_call (trace fw s))
       [FromArgv, AddLibrary vu ''lib'', AddSourceFiles lib ''../src/design/*.vhd'',
        AddSourceFiles lib ''../src/test/*.vhd'', Main vu]
     \<and> trace fw s \<noteq> []
     \<and> (\<forall>e \<in> set (butlast (trace fw s)). returned e)
     \<and> (length (trace fw s) < 5 \<longrightarrow> \<not> returned (last (trace fw s)))
     \<and> ev_before (hd (trace fw s)) = s
     \<and> (\<forall>i. Suc i < length (trace fw s) \<longrightarrow>
            ev_before (trace fw s ! Suc i) = ev_after (trace fw s ! i))
     \<and> run_vunit fw s =
         (map_outcome (\<lambda>_. ()) (ev_result (last (trace fw s))), ev_after (last (trace fw s)))"
  by (rule run_vunit_cases[of fw s]) (auto simp: less_Suc_eq)

text \<open>
  On the checkout started from the script's directory all five calls are made; started
  from the top of the checkout, the run stops behind the third call, which raised.
\<close>

theorem run_vunit_steps_witness:
  "map ev_call (trace vunit_stub demo) =
     [FromArgv, AddLibrary () ''lib'', AddSourceFiles ''lib'' ''../src/design/*.vhd'',
      AddSourceFiles ''lib'' ''../src/test/*.vhd'', Main ()]
   \<and> length (butlast (trace vunit_stub demo)) = 4
   \<and> map returned (butlast (trace vunit_stub demo)) = [True, True, True, True]
   \<and> length (trace vunit_stub above) < 5
   \<and> \<not> returned (last (trace vunit_stub above))"
  using run_vunit_steps[of vunit_stub demo] run_vunit_steps[of vunit_stub above]
  by (simp add: trace_demo trace_above)

text \<open>
  C2. The script raises nothing by itself and does not check what a pattern matched:
  an exception that leaves the script is the exception the last call of the package
  raised; what an \<^verbatim>\<open>add_source_files\<close> call gave and left is what the package gave
  and left for that library and pattern in the state of the call; and when the call
  returns, whatever it matched, the script goes on to its next call.
\<close>

theorem no_validation_of_matches:
  "(\<forall>x. fst (run_vunit fw s) = Raises x \<longrightarrow> ev_result (last (trace fw s)) = Raises x)
   \<and> (\<forall>a \<in> set (trace fw s). \<forall>lib pat. ev_call a = AddSourceFiles lib pat \<longrightarrow>
         (ev_result a, ev_after a) =
           (map_outcome (\<lambda>_. NoValue) (fst (add_source_files fw lib pat (ev_before a))),
            snd (add_source_files fw lib pat (ev_before a)))
         \<and> (returned a \<longrightarrow> a \<noteq> last (trace fw s)))"
  by (rule run_vunit_cases[of fw s]) auto

text \<open>
  Started from the top of the checkout the design pattern matches nothing: the stand-in
  raises, as VUnit does, and that exception is the result of the script.
\<close>

theorem no_validation_of_matches_witness:
  "glob (tree above) (cwd above) ''../src/design/*.vhd'' = []
   \<and> fst (run_vunit vunit_stub above) = Raises (Exn ''ValueError'')
   \<and> ev_result (last (trace vunit_stub above)) = Raises (Exn ''ValueError'')
   \<and> ev_call (trace vunit_stub demo ! 2) = AddSourceFiles ''lib'' ''../src/design/*.vhd''
   \<and> returned (trace vunit_stub demo ! 2)
   \<and> trace vunit_stub demo ! 2 \<noteq> last (trace vunit_stub demo)"
proof -
  have nothing: "glob (tree above) (cwd above) ''../src/design/*.vhd'' = []"
    by (simp add: demo_globs)
  have raised: "fst (run_vunit vunit_stub above) = Raises (Exn ''ValueError'')"
    by (simp add: run_above)
  have from_package: "ev_result (last (trace vunit_stub above)) = Raises (Exn ''ValueError'')"
    using no_validation_of_matches[of vunit_stub above] raised by blast
  have third: "trace vunit_stub demo ! 2 \<in> set (trace vunit_stub demo)"
    "ev_call (trace vunit_stub demo ! 2) = AddSourceFiles ''lib'' ''../src/design/*.vhd''"
    "returned (trace vunit_stub demo ! 2)"
    by (simp_all add: trace_demo)
  have goes_on: "trace vunit_stub demo ! 2 \<noteq> last (trace vunit_stub demo)"
    using no_validation_of_matches[of vunit_stub demo] third by blast
  show ?thesis
    using raised from_package third goes_on by (simp add: demo_globs)
qed

text \<open>
  C3. In every run that reaches \<^verbatim>\<open>main\<close>, the result and the final state of the script
  are exactly those of that call, so the process ends with the exit code the package
  produced; the script adds nothing to it.
\<close>

theorem exit_status_from_main:
  assumes "e \<in> set (trace fw s)" and "ev_call e = Main vu"
  shows "run_vunit fw s = main fw vu (ev_before e)
         \<and> exit_status (fst (run_vunit fw s)) = exit_status (fst (main fw vu (ev_before e)))
         \<and> exit_status (fst (run_vunit fw s)) = exit_status (ev_result e)"
  by (rule run_vunit_cases[of fw s]) (use assms in auto)

theorem exit_status_from_main_witness:
  "last (trace vunit_stub demo) \<in> set (trace vunit_stub demo)
   \<and> ev_call (last (trace vunit_stub demo)) = Main ()
   \<and> run_vunit vunit_stub demo = main vunit_stub () (ev_before (last (trace vunit_stub demo)))
   \<and> exit_status (fst (run_vunit vunit_stub demo)) = 0"
proof -
  have h1: "last (trace vunit_stub demo) \<in> set (trace vunit_stub demo)"
    by (simp add: trace_demo)
  have h2: "ev_call (last (trace vunit_stub demo)) = Main ()"
    by (simp add: trace_demo)
  show ?thesis
    using h1 h2 exit_status_from_main[OF h1 h2] by (simp add: run_demo)
qed

text \<open>
  C4 (as amended). The two patterns are the fixed relative pathnames
  \<^verbatim>\<open>../src/design/*.vhd\<close> and \<^verbatim>\<open>../src/test/*.vhd\<close>, passed on as they are written:
  nothing anchors them to the directory of the script. Followed from a directory \<open>wd\<close>
  (for \<^verbatim>\<open>glob\<close>, the working directory of the process) they select entries of
  \<^verbatim>\<open>src/design\<close> and \<^verbatim>\<open>src/test\<close> under the parent of \<open>wd\<close>, two sibling
  directories; these lie next to the script's directory when \<open>wd\<close> is that directory.
\<close>

theorem patterns_relative_to_start:
  assumes "a \<in> set (trace fw s)" and "ev_call a = AddSourceFiles lib pat"
  shows "(pat = ''../src/design/*.vhd''
          \<and> (\<forall>wd. locate wd (fst (path_split pat)) = butlast wd @ [''src'', ''design''])
          \<and> (\<forall>t wd. glob t wd pat =
                map (\<lambda>n. ''../src/design/'' @ n)
                  (filter (\<lambda>n. suffix ''.vhd'' n \<and> \<not> ishidden n)
                     (listdir t (butlast wd @ [''src'', ''design''])))))
       \<or> (pat = ''../src/test/*.vhd''
          \<and> (\<forall>wd. locate wd (fst (path_split pat)) = butlast wd @ [''src'', ''test''])
          \<and> (\<forall>t wd. glob t wd pat =
                map (\<lambda>n. ''../src/test/'' @ n)
                  (filter (\<lambda>n. suffix ''.vhd'' n \<and> \<not> ishidden n)
                     (listdir t (butlast wd @ [''src'', ''test''])))))"
proof -
  have "pat = ''../src/design/*.vhd'' \<or> pat = ''../src/test/*.vhd''"
    by (rule run_vunit_cases[of fw s]) (use assms in auto)
  then show ?thesis
  proof
    assume "pat = ''../src/design/*.vhd''"
    then show ?thesis
      using glob_design by (simp add: path_split_design locate_design)
  next
    assume "pat = ''../src/test/*.vhd''"
    then show ?thesis
      using glob_test by (simp add: path_split_test locate_test)
  qed
qed

theorem patterns_relative_to_start_witness:
  "trace vunit_stub away ! 2 \<in> set (trace vunit_stub away)
   \<and> ev_call (trace vunit_stub away ! 2) = AddSourceFiles ''lib'' ''../src/design/*.vhd''
   \<and> locate (cwd away) (fst (path_split ''../src/design/*.vhd'')) = [''home'', ''src'', ''design'']
   \<and> locate (script_dir away) (fst (path_split ''../src/design/*.vhd'')) =
       [''repo'', ''src'', ''design'']"
proof -
  have len: "length (trace vunit_stub away) = 5"
    using arg_cong[OF trace_away, of length] by simp
  have third: "trace vunit_stub away ! 2 \<in> set (trace vunit_stub away)"
    using len by simp
  have call: "ev_call (trace vunit_stub away ! 2) = AddSourceFiles ''lib'' ''../src/design/*.vhd''"
    using arg_cong[OF trace_away, of "\<lambda>l. fst (l ! 2)"] len by simp
  show ?thesis
    using third call patterns_relative_to_start[OF third call] by simp
qed

text \<open>
  The claim as it was stated, that the patterns are resolved from the directory of the
  script, fails when the script is started from another directory: started in
  \<^verbatim>\<open>/home/user\<close>, the script in \<^verbatim>\<open>/repo/script\<close> registers the files of
  \<^verbatim>\<open>/home/src\<close>, and not \<^verbatim>\<open>phy.vhd\<close> and \<^verbatim>\<open>phy_tb.vhd\<close>, which the patterns
  select from the directory of the script.
\<close>

theorem patterns_not_script_relative:
  "script_dir away = [''repo'', ''script''] \<and> cwd away = [''home'', ''user'']
   \<and> glob (tree away) (script_dir away) ''../src/design/*.vhd'' = [''../src/design/phy.vhd'']
   \<and> glob (tree away) (script_dir away) ''../src/test/*.vhd'' = [''../src/test/phy_tb.vhd'']
   \<and> listdir (tree away) [''home'', ''src'', ''design''] = [''other.vhd'']
   \<and> listdir (tree away) [''home'', ''src'', ''test''] = [''other_tb.vhd'']
   \<and> fst (run_vunit vunit_stub away) = Exits 0
   \<and> libraries (snd (run_vunit vunit_stub away)) =
       [(''lib'', [''../src/design/other.vhd'', ''../src/test/other_tb.vhd''])]"
proof -
  have entries: "listdir demo_tree [''home'', ''src'', ''design''] = [''other.vhd'']"
    "listdir demo_tree [''home'', ''src'', ''test''] = [''other_tb.vhd'']"
    by (simp_all add: listdir_def demo_tree_def)
  show ?thesis
    by (simp add: run_away demo_globs entries)
qed

text \<open>
  C5. For a package that registers what \<^verbatim>\<open>glob\<close> finds (\<open>vunit_like\<close>), in every run
  that reaches \<^verbatim>\<open>main\<close>, which it does when each pattern matches a file the package
  accepts, the files registered in the library at that moment are exactly the union of
  the files the design pattern matches and the files the test pattern matches.
\<close>

theorem registered_is_union:
  assumes "vunit_like fw v"
    and "e \<in> set (trace fw s)" and "ev_call e = Main vu"
    and "a \<in> set (trace fw s)" and "ev_call a = AddSourceFiles lib pat"
  shows "registered v (ev_before e) lib =
           set (glob (view_tree v (ev_before e)) (view_cwd v (ev_before e)) ''../src/design/*.vhd'')
           \<union> set (glob (view_tree v (ev_before e)) (view_cwd v (ev_before e)) ''../src/test/*.vhd'')"
proof (rule run_vunit_cases[of fw s])
  fix vu' s1 lib' s2 s3 s4 r s5
  assume steps: "from_argv fw s = (Returns vu', s1)"
    "add_library fw vu' ''lib'' s1 = (Returns lib', s2)"
    "add_source_files fw lib' ''../src/design/*.vhd'' s2 = (Returns (), s3)"
    "add_source_files fw lib' ''../src/test/*.vhd'' s3 = (Returns (), s4)"
    and tr: "trace fw s =
      [\<lparr>ev_call = FromArgv, ev_before = s, ev_result = Returns (VUnitObj vu'), ev_after = s1\<rparr>,
       \<lparr>ev_call = AddLibrary vu' ''lib'', ev_before = s1, ev_result = Returns (Library lib'),
        ev_after = s2\<rparr>,
       \<lparr>ev_call = AddSourceFiles lib' ''../src/design/*.vhd'', ev_before = s2,
        ev_result = Returns NoValue, ev_after = s3\<rparr>,
       \<lparr>ev_call = AddSourceFiles lib' ''../src/test/*.vhd'', ev_before = s3,
        ev_result = Returns NoValue, ev_after = s4\<rparr>,
       \<lparr>ev_call = Main vu', ev_before = s4, ev_result = map_outcome (\<lambda>_. NoValue) r,
        ev_after = s5\<rparr>]"
  have "ev_before e = s4" and "lib = lib'"
    using assms(2-5) tr by auto
  then show ?thesis
    using registered_after_test[OF assms(1) steps(2,3,4)] by simp
qed (use assms(2,3) in auto)

theorem registered_is_union_witness:
  "glob (tree demo) (cwd demo) ''../src/design/*.vhd'' \<noteq> []
   \<and> glob (tree demo) (cwd demo) ''../src/test/*.vhd'' \<noteq> []
   \<and> ev_call (last (trace vunit_stub demo)) = Main ()
   \<and> registered stub_view (ev_before (last (trace vunit_stub demo))) ''lib'' =
       {''../src/design/phy.vhd'', ''../src/test/phy_tb.vhd''}"
proof -
  have hand_off: "last (trace vunit_stub demo) \<in> set (trace vunit_stub demo)"
    "ev_call (last (trace vunit_stub demo)) = Main ()"
    by (simp_all add: trace_demo)
  have third: "trace vunit_stub demo ! 2 \<in> set (trace vunit_stub demo)"
    "ev_call (trace vunit_stub demo ! 2) = AddSourceFiles ''lib'' ''../src/design/*.vhd''"
    by (simp_all add: trace_demo)
  have state: "view_tree stub_view (ev_before (last (trace vunit_stub demo))) = demo_tree"
    "view_cwd stub_view (ev_before (last (trace vunit_stub demo))) = [''repo'', ''script'']"
    by (simp_all add: trace_demo stub_view_def)
  show ?thesis
    using registered_is_union[OF stub_vunit_like hand_off third] hand_off(2)
    by (simp add: state demo_globs insert_commute)
qed

text \<open>
  C6. The script has no flags of its own and does not touch the command line: the first
  call of every run is \<^verbatim>\<open>from_argv\<close>, made in the very state the script was started
  in, it is the only such call, its result is what the package's parser gave, and when
  the parser does not return (a help flag, a flag it rejects) its outcome is the outcome
  of the script.
\<close>

theorem argv_untouched:
  "trace fw s \<noteq> [] \<and> ev_call (hd (trace fw s)) = FromArgv \<and> ev_before (hd (trace fw s)) = s
   \<and> (\<forall>e \<in> set (tl (trace fw s)). ev_call e \<noteq> FromArgv)
   \<and> (ev_result (hd (trace fw s)), ev_after (hd (trace fw s))) =
       (map_outcome VUnitObj (fst (from_argv fw s)), snd (from_argv fw s))
   \<and> (\<not> returned (hd (trace fw s)) \<longrightarrow>
        run_vunit fw s = (map_outcome (\<lambda>_. ()) (fst (from_argv fw s)), snd (from_argv fw s)))"
  by (rule run_vunit_cases[of fw s]) auto

theorem argv_untouched_witness:
  "sys_argv (ev_before (hd (trace vunit_stub asks_help))) = [''--help'']
   \<and> \<not> returned (hd (trace vunit_stub asks_help))
   \<and> run_vunit vunit_stub asks_help = (Exits 0, asks_help)
   \<and> length (tl (trace vunit_stub demo)) = 4
   \<and> FromArgv \<notin> ev_call ` set (tl (trace vunit_stub demo))"
proof -
  have stops: "\<not> returned (hd (trace vunit_stub asks_help))"
    by (simp add: trace_asks_help)
  have parser: "from_argv vunit_stub asks_help = (Exits 0, asks_help)"
    by (simp add: stub_defs)
  have "run_vunit vunit_stub asks_help = (Exits 0, asks_help)"
    using argv_untouched[of vunit_stub asks_help] stops parser by simp
  moreover have "ev_before (hd (trace vunit_stub asks_help)) = asks_help"
    using argv_untouched[of vunit_stub asks_help] by blast
  moreover have "FromArgv \<notin> ev_call ` set (tl (trace vunit_stub demo))"
    using argv_untouched[of vunit_stub demo] by auto
  moreover have "length (tl (trace vunit_stub demo)) = 4"
    by (simp add: trace_demo)
  ultimately show ?thesis
    using stops by simp
qed

text \<open>
  C7. An exception raised by a call of the package is not caught: the call is the last
  one of the run (nothing is retried, no call is made twice, nothing is done behind it),
  the script ends with that exception in the state the call left, and the process ends
  with a status other than 0.
\<close>

theorem exception_propagates:
  assumes "e \<in> set (trace fw s)" and "ev_result e = Raises x"
  shows "run_vunit fw s = (Raises x, ev_after e)
         \<and> e = last (trace fw s)
         \<and> distinct (map ev_call (trace fw s))
         \<and> exit_status (fst (run_vunit fw s)) \<noteq> 0"
  by (rule run_vunit_cases[of fw s]) (use assms in auto)

theorem exception_propagates_witness:
  "trace vunit_stub above ! 2 \<in> set (trace vunit_stub above)
   \<and> ev_call (trace vunit_stub above ! 2) = AddSourceFiles ''lib'' ''../src/design/*.vhd''
   \<and> ev_result (trace vunit_stub above ! 2) = Raises (Exn ''ValueError'')
   \<and> fst (run_vunit vunit_stub above) = Raises (Exn ''ValueError'')
   \<and> exit_status (fst (run_vunit vunit_stub above)) = 1"
proof -
  have third: "trace vunit_stub above ! 2 \<in> set (trace vunit_stub above)"
    "ev_result (trace vunit_stub above ! 2) = Raises (Exn ''ValueError'')"
    by (simp_all add: trace_above)
  have call: "ev_call (trace vunit_stub above ! 2) = AddSourceFiles ''lib'' ''../src/design/*.vhd''"
    by (simp add: trace_above)
  have "run_vunit vunit_stub above = (Raises (Exn ''ValueError''), ev_after (trace vunit_stub above ! 2))"
    using exception_propagates[OF third] by blast
  then show ?thesis
    using third call by simp
qed

text \<open>
  C8. In every run at most one library is created, and exactly one once \<^verbatim>\<open>from_argv\<close>
  has returned; its name is \<^verbatim>\<open>lib\<close>; and every registration of files is made on the
  library object that this one \<^verbatim>\<open>add_library("lib")\<close> call returned, so no file is
  registered under another library.
\<close>

theorem single_library_lib:
  "length (filter (\<lambda>e. is_add_library (ev_call e)) (trace fw s)) \<le> 1
   \<and> (returned (hd (trace fw s)) \<longrightarrow>
        length (filter (\<lambda>e. is_add_library (ev_call e)) (trace fw s)) = 1)
   \<and> (\<forall>e \<in> set (trace fw s). \<forall>vu name. ev_call e = AddLibrary vu name \<longrightarrow> name = ''lib'')
   \<and> (\<forall>a \<in> set (trace fw s). \<forall>lib pat. ev_call a = AddSourceFiles lib pat \<longrightarrow>
        (\<exists>e \<in> set (trace fw s). \<exists>vu.
           ev_call e = AddLibrary vu ''lib'' \<and> ev_result e = Returns (Library lib)))"
  by (rule run_vunit_cases[of fw s]) auto

theorem single_library_lib_witness:
  "returned (hd (trace vunit_stub demo))
   \<and> length (filter (\<lambda>e. is_add_library (ev_call e)) (trace vunit_stub demo)) = 1
   \<and> ev_call (trace vunit_stub demo ! 1) = AddLibrary () ''lib''
   \<and> ev_call (trace vunit_stub demo ! 3) = AddSourceFiles ''lib'' ''../src/test/*.vhd''
   \<and> map fst (libraries (snd (run_vunit vunit_stub demo))) = [''lib'']"
proof -
  have parsed: "returned (hd (trace vunit_stub demo))"
    by (simp add: trace_demo)
  have "length (filter (\<lambda>e. is_add_library (ev_call e)) (trace vunit_stub demo)) = 1"
    using single_library_lib[of vunit_stub demo] parsed by blast
  then show ?thesis
    using parsed by (simp add: trace_demo run_demo)
qed

text \<open>
  C9. For a package that registers what \<^verbatim>\<open>glob\<close> finds (\<open>vunit_like\<close>), every file
  that the library holds behind a registration of the script is an entry directly in
  \<^verbatim>\<open>../src/design\<close> or in \<^verbatim>\<open>../src/test\<close>, seen from the directory the patterns are
  followed from, and its name ends in \<^verbatim>\<open>.vhd\<close>: entries of subdirectories and names
  with another ending are never registered. (Names are compared as on POSIX, where
  \<^verbatim>\<open>fnmatch\<close> respects case.)
\<close>

theorem only_vhd_entries:
  assumes "vunit_like fw v"
    and "a \<in> set (trace fw s)" and "ev_call a = AddSourceFiles lib pat" and "returned a"
    and "f \<in> registered v (ev_after a) lib"
  shows "(\<exists>n. f = ''../src/design/'' @ n \<and> suffix ''.vhd'' n
            \<and> n \<in> set (listdir (view_tree v (ev_after a))
                        (butlast (view_cwd v (ev_after a)) @ [''src'', ''design''])))
       \<or> (\<exists>n. f = ''../src/test/'' @ n \<and> suffix ''.vhd'' n
            \<and> n \<in> set (listdir (view_tree v (ev_after a))
                        (butlast (view_cwd v (ev_after a)) @ [''src'', ''test''])))"
proof -
  have "f \<in> set (glob (view_tree v (ev_after a)) (view_cwd v (ev_after a)) ''../src/design/*.vhd'')
        \<or> f \<in> set (glob (view_tree v (ev_after a)) (view_cwd v (ev_after a)) ''../src/test/*.vhd'')"
  proof (rule run_vunit_cases[of fw s])
    fix vu s1 lib' s2 s3 r s4
    assume steps: "add_library fw vu ''lib'' s1 = (Returns lib', s2)"
      "add_source_files fw lib' ''../src/design/*.vhd'' s2 = (Returns (), s3)"
      and stop: "r \<noteq> Returns ()"
      and tr: "trace fw s =
        [\<lparr>ev_call = FromArgv, ev_before = s, ev_result = Returns (VUnitObj vu), ev_after = s1\<rparr>,
         \<lparr>ev_call = AddLibrary vu ''lib'', ev_before = s1, ev_result = Returns (Library lib'),
          ev_after = s2\<rparr>,
         \<lparr>ev_call = AddSourceFiles lib' ''../src/design/*.vhd'', ev_before = s2,
          ev_result = Returns NoValue, ev_after = s3\<rparr>,
         \<lparr>ev_call = AddSourceFiles lib' ''../src/test/*.vhd'', ev_before = s3,
          ev_result = map_outcome (\<lambda>_. NoValue) r, ev_after = s4\<rparr>]"
    have "ev_after a = s3" and "lib = lib'"
      using assms(2-4) tr stop by auto
    then show ?thesis
      using registered_after_design[OF assms(1) steps] assms(5) by simp
  next
    fix vu s1 lib' s2 s3 s4 r s5
    assume steps: "add_library fw vu ''lib'' s1 = (Returns lib', s2)"
      "add_source_files fw lib' ''../src/design/*.vhd'' s2 = (Returns (), s3)"
      "add_source_files fw lib' ''../src/test/*.vhd'' s3 = (Returns (), s4)"
      and tr: "trace fw s =
        [\<lparr>ev_call = FromArgv, ev_before = s, ev_result = Returns (VUnitObj vu), ev_after = s1\<rparr>,
         \<lparr>ev_call = AddLibrary vu ''lib'', ev_before = s1, ev_result = Returns (Library lib'),
          ev_after = s2\<rparr>,
         \<lparr>ev_call = AddSourceFiles lib' ''../src/design/*.vhd'', ev_before = s2,
          ev_result = Returns NoValue, ev_after = s3\<rparr>,
         \<lparr>ev_call = AddSourceFiles lib' ''../src/test/*.vhd'', ev_before = s3,
          ev_result = Returns NoValue, ev_after = s4\<rparr>,
         \<lparr>ev_call = Main vu, ev_before = s4, ev_result = map_outcome (\<lambda>_. NoValue) r,
          ev_after = s5\<rparr>]"
    have "lib = lib'" and "ev_after a = s3 \<or> ev_after a = s4"
      using assms(2-4) tr by auto
    then show ?thesis
      using registered_after_design[OF assms(1) steps(1,2)]
        registered_after_test[OF assms(1) steps] assms(5) by auto
  qed (use assms(2-4) in auto)
  then show ?thesis
    using glob_design_entry glob_test_entry by blast
qed

theorem only_vhd_entries_witness:
  "returned (trace vunit_stub demo ! 3)
   \<and> ''../src/design/phy.vhd'' \<in> registered stub_view (ev_after (trace vunit_stub demo ! 3)) ''lib''
   \<and> suffix ''.vhd'' ''phy.vhd''
   \<and> listdir demo_tree [''repo'', ''src'', ''design'']
       = [''phy.vhd'', ''notes.txt'', ''.old.vhd'', ''sub'']
   \<and> listdir demo_tree [''repo'', ''src'', ''design'', ''sub''] = [''deep.vhd'']
   \<and> ''../src/design/notes.txt''
       \<notin> registered stub_view (ev_after (trace vunit_stub demo ! 3)) ''lib''
   \<and> ''../src/design/sub/deep.vhd''
       \<notin> registered stub_view (ev_after (trace vunit_stub demo ! 3)) ''lib''"
proof -
  have fourth: "trace vunit_stub demo ! 3 \<in> set (trace vunit_stub demo)"
    "ev_call (trace vunit_stub demo ! 3) = AddSourceFiles ''lib'' ''../src/test/*.vhd''"
    "returned (trace vunit_stub demo ! 3)"
    by (simp_all add: trace_demo)
  have held:
    "''../src/design/phy.vhd'' \<in> registered stub_view (ev_after (trace vunit_stub demo ! 3)) ''lib''"
    by (simp add: trace_demo stub_view_def)
  have state: "view_tree stub_view (ev_after (trace vunit_stub demo ! 3)) = demo_tree"
    "view_cwd stub_view (ev_after (trace vunit_stub demo ! 3)) = [''repo'', ''script'']"
    by (simp_all add: trace_demo stub_view_def)
  have entries: "listdir demo_tree [''repo'', ''src'', ''design'']
      = [''phy.vhd'', ''notes.txt'', ''.old.vhd'', ''sub'']"
    "listdir demo_tree [''repo'', ''src'', ''design'', ''sub''] = [''deep.vhd'']"
    "listdir demo_tree [''repo'', ''src'', ''test''] = [''phy_tb.vhd'']"
    by (simp_all add: listdir_def demo_tree_def)
  have other_ending:
    "''../src/design/notes.txt''
       \<notin> registered stub_view (ev_after (trace vunit_stub demo ! 3)) ''lib''"
  proof
    assume "''../src/design/notes.txt''
       \<in> registered stub_view (ev_after (trace vunit_stub demo ! 3)) ''lib''"
    from only_vhd_entries[OF stub_vunit_like fourth this]
    show False by (auto simp: state entries suffix_def)
  qed
  have below:
    "''../src/design/sub/deep.vhd''
       \<notin> registered stub_view (ev_after (trace vunit_stub demo ! 3)) ''lib''"
  proof
    assume "''../src/design/sub/deep.vhd''
       \<in> registered stub_view (ev_after (trace vunit_stub demo ! 3)) ''lib''"
    from only_vhd_entries[OF stub_vunit_like fourth this]
    show False by (auto simp: state entries suffix_def)
  qed
  show ?thesis
    using fourth(3) held other_ending below by (simp add: entries suffix_def)
qed

text \<open>
  C10. The calls of the script are the same in every run: two runs that make equally many
  calls make the same calls, with the same library name and the same patterns in the same
  order, whatever the package and the state. On the stand-in, two processes with the same
  arguments, working directory and file system make the same calls on the same objects
  and see the same registered files at every call behind \<^verbatim>\<open>from_argv\<close>, the hand-off
  to \<^verbatim>\<open>main\<close> included, wherever the script lies.
\<close>

theorem same_calls_in_every_run:
  "(length (trace fw s) = length (trace fw' s') \<longrightarrow>
      map (\<lambda>e. map_call (\<lambda>_. ()) (\<lambda>_. ()) (ev_call e)) (trace fw s) =
      map (\<lambda>e. map_call (\<lambda>_. ()) (\<lambda>_. ()) (ev_call e)) (trace fw' s'))
   \<and> (sys_argv p = sys_argv p' \<and> cwd p = cwd p' \<and> tree p = tree p' \<longrightarrow>
        map ev_call (trace vunit_stub p) = map ev_call (trace vunit_stub p')
        \<and> map (\<lambda>e. libraries (ev_before e)) (tl (trace vunit_stub p)) =
           map (\<lambda>e. libraries (ev_before e)) (tl (trace vunit_stub p')))"
proof
  show "length (trace fw s) = length (trace fw' s') \<longrightarrow>
      map (\<lambda>e. map_call (\<lambda>_. ()) (\<lambda>_. ()) (ev_call e)) (trace fw s) =
      map (\<lambda>e. map_call (\<lambda>_. ()) (\<lambda>_. ()) (ev_call e)) (trace fw' s')"
    by (rule run_vunit_cases[of fw s]; rule run_vunit_cases[of fw' s']) auto
next
  show "sys_argv p = sys_argv p' \<and> cwd p = cwd p' \<and> tree p = tree p' \<longrightarrow>
        map ev_call (trace vunit_stub p) = map ev_call (trace vunit_stub p')
        \<and> map (\<lambda>e. libraries (ev_before e)) (tl (trace vunit_stub p)) =
           map (\<lambda>e. libraries (ev_before e)) (tl (trace vunit_stub p'))"
    by (simp add: run_defs stub_defs split: list.splits)
qed

theorem same_calls_in_every_run_witness:
  "length (trace vunit_stub demo) = length (trace vunit_stub away)
   \<and> map (\<lambda>e. map_call (\<lambda>_. ()) (\<lambda>_. ()) (ev_call e)) (trace vunit_stub away) =
       [FromArgv, AddLibrary () ''lib'', AddSourceFiles () ''../src/design/*.vhd'',
        AddSourceFiles () ''../src/test/*.vhd'', Main ()]
   \<and> sys_argv demo = sys_argv (demo\<lparr>script_dir := [''tmp'']\<rparr>)
   \<and> cwd demo = cwd (demo\<lparr>script_dir := [''tmp'']\<rparr>)
   \<and> tree demo = tree (demo\<lparr>script_dir := [''tmp'']\<rparr>)
   \<and> map ev_call (trace vunit_stub (demo\<lparr>script_dir := [''tmp'']\<rparr>)) =
       [FromArgv, AddLibrary () ''lib'', AddSourceFiles ''lib'' ''../src/design/*.vhd'',
        AddSourceFiles ''lib'' ''../src/test/*.vhd'', Main ()]
   \<and> map (\<lambda>e. libraries (ev_before e)) (tl (trace vunit_stub (demo\<lparr>script_dir := [''tmp'']\<rparr>))) =
       [[], [(''lib'', [])], [(''lib'', [''../src/design/phy.vhd''])],
        [(''lib'', [''../src/design/phy.vhd'', ''../src/test/phy_tb.vhd''])]]"
proof -
  have len: "length (trace vunit_stub demo) = length (trace vunit_stub away)"
    using arg_cong[OF trace_away, of length] by (simp add: trace_demo)
  have same: "sys_argv demo = sys_argv (demo\<lparr>script_dir := [''tmp'']\<rparr>)
      \<and> cwd demo = cwd (demo\<lparr>script_dir := [''tmp'']\<rparr>)
      \<and> tree demo = tree (demo\<lparr>script_dir := [''tmp'']\<rparr>)"
    by simp
  show ?thesis
    using len same
      same_calls_in_every_run[of vunit_stub demo vunit_stub away demo "demo\<lparr>script_dir := [''tmp'']\<rparr>"]
    by (simp add: trace_demo)
qed

end
